theory Spec2Isabelle
  imports Main "HOL-Library.Word"
begin

section \<open>JavaScript strings\<close>

text \<open>
  A JavaScript string is a sequence of 16-bit code units; \<open>length\<close>, \<open>charAt\<close>,
  \<open>slice\<close>, \<open>split\<close>, \<open>includes\<close> and a regular expression without the \<open>u\<close> flag
  all count and compare code units.
\<close>

type_synonym unit16 = "16 word"
type_synonym jsstring = "unit16 list"

text \<open>An ASCII literal of the source, as code units.\<close>

definition js :: "string \<Rightarrow> jsstring" where
  "js s = map (\<lambda>c. of_nat (of_char c)) s"

definition AT :: unit16 where "AT = 0x40"
definition DOT :: unit16 where "DOT = 0x2E"

text \<open>\<open>str.charAt(i)\<close>: the one-unit string at index \<open>i\<close>, the empty string out of range.\<close>

definition charAt :: "jsstring \<Rightarrow> nat \<Rightarrow> jsstring" where
  "charAt str i = (if i < length str then [str ! i] else [])"

text \<open>\<open>str.slice(start)\<close> for a non-negative \<open>start\<close>: everything from index \<open>start\<close> on.\<close>

definition slice :: "jsstring \<Rightarrow> nat \<Rightarrow> jsstring" where
  "slice str start = drop start str"

text \<open>
  \<open>toUpperCase\<close> and \<open>toLowerCase\<close> follow the Unicode case mappings of the runtime,
  which are not part of the program. What is written out here are the entries for Basic
  Latin and Latin-1 Supplement (U+0000 to U+00FF): \<open>a\<close>-\<open>z\<close>, U+00E0-U+00F6 and
  U+00F8-U+00FE have their capital 32 below; the micro sign U+00B5 has the capital U+039C;
  U+00FF has the capital U+0178; the sharp s U+00DF has the two-unit capital \<open>SS\<close>; the
  upper table also has the two capitals U+039C and U+0178 it produces, which are their own
  upper case. A unit without an entry gives \<open>None\<close>.
\<close>

definition upper_unit :: "unit16 \<Rightarrow> jsstring option" where
  "upper_unit c =
     (if c = 0x39C \<or> c = 0x178 then Some [c]
      else if 0xFF < c then None
      else if 0x61 \<le> c \<and> c \<le> 0x7A then Some [c - 0x20]
      else if c = 0xB5 then Some [0x39C]
      else if c = 0xDF then Some [0x53, 0x53]
      else if (0xE0 \<le> c \<and> c \<le> 0xF6) \<or> (0xF8 \<le> c \<and> c \<le> 0xFE) then Some [c - 0x20]
      else if c = 0xFF then Some [0x178]
      else Some [c])"

definition lower_unit :: "unit16 \<Rightarrow> unit16 option" where
  "lower_unit c =
     (if 0xFF < c then None
      else if 0x41 \<le> c \<and> c \<le> 0x5A then Some (c + 0x20)
      else if (0xC0 \<le> c \<and> c \<le> 0xD6) \<or> (0xD8 \<le> c \<and> c \<le> 0xDE) then Some (c + 0x20)
      else Some c)"

text \<open>
  For a string with a unit outside the tables the conversions are those of the runtime,
  a parameter: \<open>rt_toUpperCase\<close> and \<open>rt_toLowerCase\<close> are whole-string functions, since
  the Unicode mappings beyond the tables depend on neighbouring units (surrogate pairs,
  the final sigma) and can change the length.
\<close>

record runtime =
  rt_toUpperCase :: "jsstring \<Rightarrow> jsstring"
  rt_toLowerCase :: "jsstring \<Rightarrow> jsstring"

text \<open>
  \<open>str.toUpperCase()\<close> and \<open>str.toLowerCase()\<close>: by the tables when every unit of the
  string has an entry (within the tables no mapping depends on the neighbours), by the
  runtime otherwise.
\<close>

definition toUpperCase :: "runtime \<Rightarrow> jsstring \<Rightarrow> jsstring" where
  "toUpperCase rt str =
     (case those (map upper_unit str) of
        Some parts \<Rightarrow> concat parts
      | None \<Rightarrow> rt_toUpperCase rt str)"

definition toLowerCase :: "runtime \<Rightarrow> jsstring \<Rightarrow> jsstring" where
  "toLowerCase rt str =
     (case those (map lower_unit str) of
        Some low \<Rightarrow> low
      | None \<Rightarrow> rt_toLowerCase rt str)"

text \<open>\<open>str.split(sep)\<close> for a one-unit separator: the pieces between the separators.\<close>

fun split :: "unit16 \<Rightarrow> jsstring \<Rightarrow> jsstring list" where
  "split sep [] = [[]]"
| "split sep (c # cs) =
     (if c = sep then [] # split sep cs
      else (case split sep cs of [] \<Rightarrow> [[c]] | p # ps \<Rightarrow> (c # p) # ps))"

text \<open>\<open>arr[i]\<close>: \<open>undefined\<close> (here \<open>None\<close>) when the index is out of range.\<close>

definition index :: "'a list \<Rightarrow> nat \<Rightarrow> 'a option" where
  "index arr i = (if i < length arr then Some (arr ! i) else None)"

text \<open>\<open>str.includes(needle)\<close>: the needle occurs as a contiguous run of units.\<close>

fun includes_str :: "jsstring \<Rightarrow> jsstring \<Rightarrow> bool" where
  "includes_str [] needle = (needle = [])"
| "includes_str (c # cs) needle = (take (length needle) (c # cs) = needle \<or> includes_str cs needle)"

text \<open>The errors of the runtime that the program can raise.\<close>

datatype js_error = TypeError

section \<open>Regular expressions\<close>

text \<open>
  The class escape \<open>\s\<close> of a JavaScript regular expression: the white space and line
  terminator code units of ECMAScript.
\<close>

definition is_space :: "unit16 \<Rightarrow> bool" where
  "is_space c =
     (c = 0x09 \<or> c = 0x0A \<or> c = 0x0B \<or> c = 0x0C \<or> c = 0x0D \<or> c = 0x20 \<or> c = 0xA0
      \<or> c = 0x1680 \<or> (0x2000 \<le> c \<and> c \<le> 0x200A) \<or> c = 0x2028 \<or> c = 0x2029
      \<or> c = 0x202F \<or> c = 0x205F \<or> c = 0x3000 \<or> c = 0xFEFF)"

datatype class_atom = EscS | Lit unit16

fun class_atom_ok :: "class_atom \<Rightarrow> unit16 \<Rightarrow> bool" where
  "class_atom_ok EscS c = is_space c"
| "class_atom_ok (Lit d) c = (c = d)"

text \<open>
  Patterns: a literal unit, a negated class \<open>[^...]\<close>, sequence, alternative and
  repetition. \<open>Zero\<close> and \<open>One\<close> (no string, the empty string) arise while matching.
\<close>

datatype rx =
    Zero
  | One
  | Chr unit16
  | NotOneOf "class_atom list"
  | Alt rx rx
  | Seq rx rx
  | Star rx

definition Plus :: "rx \<Rightarrow> rx" where
  "Plus r = Seq r (Star r)"

fun nullable :: "rx \<Rightarrow> bool" where
  "nullable Zero = False"
| "nullable One = True"
| "nullable (Chr d) = False"
| "nullable (NotOneOf as) = False"
| "nullable (Alt r s) = (nullable r \<or> nullable s)"
| "nullable (Seq r s) = (nullable r \<and> nullable s)"
| "nullable (Star r) = True"

text \<open>What is left of a pattern once the unit \<open>c\<close> has been read.\<close>

fun deriv :: "unit16 \<Rightarrow> rx \<Rightarrow> rx" where
  "deriv c Zero = Zero"
| "deriv c One = Zero"
| "deriv c (Chr d) = (if c = d then One else Zero)"
| "deriv c (NotOneOf as) = (if list_ex (\<lambda>a. class_atom_ok a c) as then Zero else One)"
| "deriv c (Alt r s) = Alt (deriv c r) (deriv c s)"
| "deriv c (Seq r s) =
     (if nullable r then Alt (Seq (deriv c r) s) (deriv c s) else Seq (deriv c r) s)"
| "deriv c (Star r) = Seq (deriv c r) (Star r)"

text \<open>
  \<open>/^r$/.test(str)\<close>: without the \<open>m\<close> flag \<open>^\<close> and \<open>$\<close> match only at the two ends of
  the input, so the test asks whether the whole string matches \<open>r\<close>.
\<close>

fun rx_test :: "rx \<Rightarrow> jsstring \<Rightarrow> bool" where
  "rx_test r [] = nullable r"
| "rx_test r (c # cs) = rx_test (deriv c r) cs"

section \<open>The helpers of user_upload.js\<close>

text \<open>
  \<^verbatim>\<open>const capitalize = (str) => {
    return str.charAt(0).toUpperCase() + str.slice(1).toLowerCase();
};\<close>
\<close>

definition capitalize :: "runtime \<Rightarrow> jsstring \<Rightarrow> jsstring" where
  "capitalize rt str = toUpperCase rt (charAt str 0) @ toLowerCase rt (slice str 1)"

text \<open>The pattern \<^verbatim>\<open>/^[^\s@]+@[^\s@]+\.[^\s@]+$/\<close>.\<close>

definition emailRegex :: rx where
  "emailRegex =
     Seq (Plus (NotOneOf [EscS, Lit AT]))
       (Seq (Chr AT)
         (Seq (Plus (NotOneOf [EscS, Lit AT]))
           (Seq (Chr DOT) (Plus (NotOneOf [EscS, Lit AT])))))"

text \<open>
  \<^verbatim>\<open>const validateEmail = (email) => {
    const emailRegex = /^[^\s@]+@[^\s@]+\.[^\s@]+$/;
    return emailRegex.test(email) && email.split('@')[1].includes('.');
};\<close>
  \<open>&&\<close> evaluates its right operand only when the left one is true. There,
  \<open>email.split('@')[1]\<close> is \<open>undefined\<close> when the string has no \<open>@\<close>, and calling
  \<open>includes\<close> on \<open>undefined\<close> raises a TypeError.
\<close>

definition validateEmail :: "jsstring \<Rightarrow> js_error + bool" where
  "validateEmail em =
     (if rx_test emailRegex em
      then (case index (split AT em) 1 of
              None \<Rightarrow> Inl TypeError
            | Some part \<Rightarrow> Inr (includes_str part [DOT]))
      else Inr False)"

section \<open>Rows, records and the console\<close>

text \<open>
  A row of the CSV parser is an object with one string per column that the line has a
  cell for; reading a column that is not there gives \<open>undefined\<close> (here \<open>None\<close>).
\<close>

type_synonym row = "string \<rightharpoonup> jsstring"

record user =
  name :: jsstring
  surname :: jsstring
  email :: jsstring

type_synonym message = jsstring

text \<open>
  One constructor per line that the program writes to the console, with the values
  it interpolates: \<open>InvalidEmailFormat em\<close> is
  \<^verbatim>\<open>console.error(`Invalid email format: ${email}`)\<close>, \<open>ErrorInserting em m\<close> is
  \<^verbatim>\<open>console.error(`Error inserting user: ${user.email}.`, error.message)\<close>.
\<close>

datatype log_entry =
    ErrorConnecting message
  | TableCreated
  | ErrorCreatingTable message
  | InvalidEmailFormat jsstring
  | DryRunNotice
  | PrintResults "user list"
  | ErrorInserting jsstring message
  | DataInserted
  | ErrorReadingCSV message
  | UsageHint

type_synonym console = "log_entry list"

section \<open>The database connection\<close>

text \<open>
  The two statements the program sends: the \<open>CREATE TABLE IF NOT EXISTS users\<close> of
  \<open>createUsersTable\<close> and the prepared \<open>INSERT INTO users (name, surname, email)\<close> of
  \<open>insertDataIntoDB\<close> with its three parameters.
\<close>

datatype statement = CreateTableIfNotExists | InsertUser jsstring jsstring jsstring

text \<open>
  The server is a parameter: \<open>run\<close> gives, for a statement and a database state, the
  state afterwards and the message of the error the awaited call throws, if it throws.
\<close>

type_synonym 'db run = "statement \<Rightarrow> 'db \<Rightarrow> 'db \<times> message option"

text \<open>
  \<^verbatim>\<open>for (const user of users) {
  try {
    await connection.execute(insertQuery, [user.name, user.surname, user.email]);
  } catch (error) {
    console.error(`Error inserting user: ${user.email}.`, error.message);
  }
}
console.log('Data inserted successfully.');\<close>
\<close>

fun insertLoop :: "'db run \<Rightarrow> user list \<Rightarrow> 'db \<times> console \<Rightarrow> 'db \<times> console" where
  "insertLoop run [] (db, con) = (db, con)"
| "insertLoop run (u # us) (db, con) =
     (case run (InsertUser (name u) (surname u) (email u)) db of
        (db', None) \<Rightarrow> insertLoop run us (db', con)
      | (db', Some m) \<Rightarrow> insertLoop run us (db', con @ [ErrorInserting (email u) m]))"

definition insertDataIntoDB :: "'db run \<Rightarrow> user list \<Rightarrow> 'db \<times> console \<Rightarrow> 'db \<times> console" where
  "insertDataIntoDB run users st =
     (case insertLoop run users st of (db', con') \<Rightarrow> (db', con' @ [DataInserted]))"

definition createUsersTable :: "'db run \<Rightarrow> 'db \<times> console \<Rightarrow> 'db \<times> console" where
  "createUsersTable run st =
     (case st of (db, con) \<Rightarrow>
        (case run CreateTableIfNotExists db of
           (db', None) \<Rightarrow> (db', con @ [TableCreated])
         | (db', Some m) \<Rightarrow> (db', con @ [ErrorCreatingTable m])))"

section \<open>The CSV pipeline\<close>

text \<open>
  The handler of the \<open>data\<close> event. \<open>results\<close> is the array the handlers close over.
  \<open>capitalize(data.name)\<close> calls \<open>charAt\<close> on its argument and \<open>data.email.toLowerCase()\<close>
  calls a method on the cell: on \<open>undefined\<close> either raises a TypeError.
  \<^verbatim>\<open>const name = capitalize(data.name);
const surname = capitalize(data.surname);
const email = data.email.toLowerCase();
if (validateEmail(email)) {
  results.push({ name, surname, email });
} else {
  console.error(`Invalid email format: ${email}`);
}\<close>
\<close>

definition onData ::
  "runtime \<Rightarrow> row \<Rightarrow> user list \<times> console \<Rightarrow> js_error + user list \<times> console"
where
  "onData rt data st =
     (case st of (results, con) \<Rightarrow>
        (case data ''name'' of
           None \<Rightarrow> Inl TypeError
         | Some n \<Rightarrow>
            (case data ''surname'' of
               None \<Rightarrow> Inl TypeError
             | Some s \<Rightarrow>
                (case data ''email'' of
                   None \<Rightarrow> Inl TypeError
                 | Some e \<Rightarrow>
                    (case validateEmail (toLowerCase rt e) of
                       Inl err \<Rightarrow> Inl err
                     | Inr True \<Rightarrow>
                         Inr (results @ [\<lparr>name = capitalize rt n, surname = capitalize rt s,
                                          email = toLowerCase rt e\<rparr>], con)
                     | Inr False \<Rightarrow>
                         Inr (results, con @ [InvalidEmailFormat (toLowerCase rt e)]))))))"

text \<open>
  The rows arrive one \<open>data\<close> event after the other. An error raised inside the handler
  is caught nowhere: it ends the run at that row, with the state reached so far.
\<close>

fun onDataAll ::
  "runtime \<Rightarrow> row list \<Rightarrow> user list \<times> console
     \<Rightarrow> js_error \<times> (user list \<times> console) + user list \<times> console"
where
  "onDataAll rt [] st = Inr st"
| "onDataAll rt (data # rest) st =
     (case onData rt data st of
        Inl err \<Rightarrow> Inl (err, st)
      | Inr st' \<Rightarrow> onDataAll rt rest st')"

text \<open>How the parser's stream finishes: the \<open>end\<close> event, or the \<open>error\<close> event.\<close>

datatype stream_end = End | StreamError message

text \<open>How the promise of \<open>processCSVFile\<close> finishes, or that a handler raised.\<close>

datatype settled = Resolved | Rejected message | Thrown js_error

text \<open>
  \<open>processCSVFile\<close> on the rows the stream delivers and its last event. The result is
  how the promise settles, the final \<open>results\<close> array, the database and the console.
  The \<open>catch\<close> around \<open>insertDataIntoDB\<close> never runs: every error of \<open>execute\<close> is
  caught inside the loop.
\<close>

definition processCSVFile ::
  "runtime \<Rightarrow> 'db run \<Rightarrow> bool \<Rightarrow> row list \<Rightarrow> stream_end \<Rightarrow> 'db \<times> console
     \<Rightarrow> settled \<times> user list \<times> 'db \<times> console"
where
  "processCSVFile rt run dryRun rows fin st =
     (case st of (db, con) \<Rightarrow>
        (case onDataAll rt rows ([], con) of
           Inl (err, (results, con')) \<Rightarrow> (Thrown err, results, db, con')
         | Inr (results, con') \<Rightarrow>
            (case fin of
               StreamError m \<Rightarrow> (Rejected m, results, db, con' @ [ErrorReadingCSV m])
             | End \<Rightarrow>
                (if dryRun
                 then (Resolved, results, db, con' @ [DryRunNotice, PrintResults results])
                 else (case insertDataIntoDB run results (db, con') of
                         (db', con'') \<Rightarrow> (Resolved, results, db', con''))))))"

section \<open>The entry point\<close>

text \<open>
  The command line as \<open>main\<close> reads it: \<open>argv.create_table\<close> and \<open>argv.dry_run\<close> are
  tested for truth only, \<open>argv.file\<close> is a string or absent, and the empty string is
  false in a condition.
\<close>

record argv =
  create_table :: bool
  file_arg :: "jsstring option"
  dry_run :: bool

definition truthy :: "jsstring option \<Rightarrow> bool" where
  "truthy v = (case v of None \<Rightarrow> False | Some s \<Rightarrow> s \<noteq> [])"

text \<open>
  How the process ends: \<open>process.exit(code)\<close>, the normal end of \<open>main\<close>, a rejected
  promise of \<open>main\<close> that nothing handles, or an exception that nothing catches.
\<close>

datatype ending = Exit nat | Finished | UnhandledRejection message | UncaughtException js_error

text \<open>
  \<open>main\<close>, with the outcome of \<open>mysql.createConnection\<close> as a parameter: \<open>None\<close> when the
  connection is established, \<open>Some m\<close> when the call throws an error with message \<open>m\<close>.
  In that case \<open>connectToDatabase\<close> logs the message and calls \<open>process.exit(1)\<close>, which
  does not return. The last component of the result tells whether \<open>connection.end()\<close> ran.
\<close>

definition main ::
  "runtime \<Rightarrow> message option \<Rightarrow> 'db run \<Rightarrow> argv \<Rightarrow> row list \<Rightarrow> stream_end \<Rightarrow> 'db
     \<Rightarrow> ending \<times> 'db \<times> console \<times> bool"
where
  "main rt createConnection run args rows fin db =
     (case createConnection of
        Some m \<Rightarrow> (Exit 1, db, [ErrorConnecting m], False)
      | None \<Rightarrow>
         (if create_table args
          then (case createUsersTable run (db, []) of
                  (db', con) \<Rightarrow> (Finished, db', con, True))
          else if truthy (file_arg args)
          then (case processCSVFile rt run (dry_run args) rows fin (db, []) of
                  (Resolved, results, db', con) \<Rightarrow> (Finished, db', con, True)
                | (Rejected m, results, db', con) \<Rightarrow> (UnhandledRejection m, db', con, True)
                | (Thrown err, results, db', con) \<Rightarrow> (UncaughtException err, db', con, False))
          else (Finished, db, [UsageHint], True)))"

section \<open>What the specification talks about\<close>

subsection \<open>The strings a pattern matches\<close>

definition conc :: "jsstring set \<Rightarrow> jsstring set \<Rightarrow> jsstring set" where
  "conc A B = {u @ v | u v. u \<in> A \<and> v \<in> B}"

inductive_set star :: "jsstring set \<Rightarrow> jsstring set" for A :: "jsstring set" where
  star_empty: "[] \<in> star A"
| star_more: "u \<in> A \<Longrightarrow> v \<in> star A \<Longrightarrow> u @ v \<in> star A"

fun lang :: "rx \<Rightarrow> jsstring set" where
  "lang Zero = {}"
| "lang One = {[]}"
| "lang (Chr d) = {[d]}"
| "lang (NotOneOf as) = {[c] | c. \<not> list_ex (\<lambda>a. class_atom_ok a c) as}"
| "lang (Alt r s) = lang r \<union> lang s"
| "lang (Seq r s) = conc (lang r) (lang s)"
| "lang (Star r) = star (lang r)"

subsection \<open>The shape of an email\<close>

text \<open>A unit that is neither white space nor \<open>@\<close>.\<close>

definition plain :: "unit16 \<Rightarrow> bool" where
  "plain c = (\<not> is_space c \<and> c \<noteq> AT)"

text \<open>
  The shape \<open>local-part@domain.tld\<close> in the specification's words: three non-empty
  parts free of white space and of \<open>@\<close>, joined by an \<open>@\<close> and a \<open>.\<close>.
\<close>

definition email_shape :: "jsstring \<Rightarrow> bool" where
  "email_shape em =
     (\<exists>local dom tld. em = local @ [AT] @ dom @ [DOT] @ tld
        \<and> local \<noteq> [] \<and> dom \<noteq> [] \<and> tld \<noteq> []
        \<and> list_all plain local \<and> list_all plain dom \<and> list_all plain tld)"

text \<open>The substring after the first \<open>@\<close>.\<close>

definition after_first_at :: "jsstring \<Rightarrow> jsstring" where
  "after_first_at em = drop 1 (dropWhile (\<lambda>c. c \<noteq> AT) em)"

subsection \<open>Normalization\<close>




text \<open>
  A runtime that leaves every string outside the tables unchanged. It stands in where a
  closed term needs a runtime; the strings of those terms lie within the tables, where
  no runtime is consulted.
\<close>

definition unchanged_beyond :: runtime where
  "unchanged_beyond = \<lparr>rt_toUpperCase = (\<lambda>str. str), rt_toLowerCase = (\<lambda>str. str)\<rparr>"

text \<open>A row that has the three columns the handler reads.\<close>

definition complete :: "row \<Rightarrow> bool" where
  "complete data = (data ''name'' \<noteq> None \<and> data ''surname'' \<noteq> None \<and> data ''email'' \<noteq> None)"

text \<open>The row's email, lower-cased, passes validation.\<close>

definition passes :: "runtime \<Rightarrow> row \<Rightarrow> bool" where
  "passes rt data =
     (case data ''email'' of
        None \<Rightarrow> False
      | Some e \<Rightarrow> validateEmail (toLowerCase rt e) = Inr True)"

text \<open>The normalized form of a row that has the three columns.\<close>

definition normal_form :: "runtime \<Rightarrow> row \<Rightarrow> user option" where
  "normal_form rt data =
     (case data ''name'' of None \<Rightarrow> None | Some n \<Rightarrow>
        (case data ''surname'' of None \<Rightarrow> None | Some s \<Rightarrow>
           (case data ''email'' of None \<Rightarrow> None | Some e \<Rightarrow>
              Some \<lparr>name = capitalize rt n, surname = capitalize rt s,
                    email = toLowerCase rt e\<rparr>)))"

text \<open>The console lines for the rows of a stream whose email fails validation, in order.\<close>

fun rejection_lines :: "runtime \<Rightarrow> row list \<Rightarrow> console" where
  "rejection_lines rt [] = []"
| "rejection_lines rt (data # rest) =
     (case data ''email'' of
        None \<Rightarrow> rejection_lines rt rest
      | Some e \<Rightarrow>
          (if validateEmail (toLowerCase rt e) = Inr True then rejection_lines rt rest
           else InvalidEmailFormat (toLowerCase rt e) # rejection_lines rt rest))"

subsection \<open>The loader and the database\<close>

text \<open>
  The insert attempts the server sees for a batch, in order, each with the record and the
  error it is answered with (\<open>None\<close> when the insert succeeds), and the database after them.
\<close>

fun attempts :: "'db run \<Rightarrow> user list \<Rightarrow> 'db \<Rightarrow> (user \<times> message option) list" where
  "attempts run [] db = []"
| "attempts run (u # us) db =
     (case run (InsertUser (name u) (surname u) (email u)) db of
        (db', r) \<Rightarrow> (u, r) # attempts run us db')"

fun after_attempts :: "'db run \<Rightarrow> user list \<Rightarrow> 'db \<Rightarrow> 'db" where
  "after_attempts run [] db = db"
| "after_attempts run (u # us) db =
     after_attempts run us (fst (run (InsertUser (name u) (surname u) (email u)) db))"

text \<open>The console line of an attempt: one line for each failure, none for a success.\<close>

fun failure_lines :: "(user \<times> message option) list \<Rightarrow> console" where
  "failure_lines [] = []"
| "failure_lines ((u, None) # rest) = failure_lines rest"
| "failure_lines ((u, Some m) # rest) = ErrorInserting (email u) m # failure_lines rest"

text \<open>
  A \<open>users\<close> table as the statement of \<open>createUsersTable\<close> declares it, as far as the
  \<open>UNIQUE\<close> constraint on \<open>email\<close> goes: the stored rows in insertion order, without
  the \<open>id\<close> column; an insert whose email is already stored is refused with a
  duplicate-entry error (its message shortened here) and stores nothing.
\<close>

type_synonym users_table = "user list"

fun users_table_run :: "users_table run" where
  "users_table_run CreateTableIfNotExists tbl = (tbl, None)"
| "users_table_run (InsertUser n s e) tbl =
     (if e \<in> set (map email tbl) then (tbl, Some (js ''Duplicate entry''))
      else (tbl @ [\<lparr>name = n, surname = s, email = e\<rparr>], None))"

text \<open>The components of the result of \<open>processCSVFile\<close>.\<close>

definition results_of :: "settled \<times> user list \<times> 'db \<times> console \<Rightarrow> user list" where
  "results_of r = fst (snd r)"

definition db_of :: "settled \<times> user list \<times> 'db \<times> console \<Rightarrow> 'db" where
  "db_of r = fst (snd (snd r))"

section \<open>Pattern matching is sound and complete\<close>

lemma nullable_lang: "nullable r \<longleftrightarrow> [] \<in> lang r"
  by (induction r) (auto simp: conc_def intro: star_empty)

lemma star_cons:
  "c # w \<in> star A \<longleftrightarrow> (\<exists>u v. w = u @ v \<and> c # u \<in> A \<and> v \<in> star A)"
proof
  assume "c # w \<in> star A"
  then show "\<exists>u v. w = u @ v \<and> c # u \<in> A \<and> v \<in> star A"
  proof (induction "c # w" rule: star.induct)
    case (star_more u v)
    show ?case
    proof (cases u)
      case Nil
      with star_more show ?thesis by simp
    next
      case (Cons d u')
      with star_more show ?thesis by auto
    qed
  qed
next
  assume "\<exists>u v. w = u @ v \<and> c # u \<in> A \<and> v \<in> star A"
  then obtain u v where "w = u @ v" "c # u \<in> A" "v \<in> star A" by blast
  then show "c # w \<in> star A" using star_more [of "c # u" A v] by simp
qed

lemma conc_cons:
  "c # w \<in> conc A B \<longleftrightarrow>
     (\<exists>u v. w = u @ v \<and> c # u \<in> A \<and> v \<in> B) \<or> ([] \<in> A \<and> c # w \<in> B)"
  unfolding conc_def by (auto simp: Cons_eq_append_conv) 

lemma deriv_lang: "w \<in> lang (deriv c r) \<longleftrightarrow> c # w \<in> lang r"
proof (induction r arbitrary: w)
  case (Seq r s)
  then show ?case by (auto simp: conc_cons nullable_lang) (auto simp: conc_def)
next
  case (Star r)
  then show ?case by (auto simp: star_cons) (auto simp: conc_def)
qed auto

lemma rx_test_lang: "rx_test r w \<longleftrightarrow> w \<in> lang r"
  by (induction w arbitrary: r) (simp_all add: nullable_lang deriv_lang)

lemma star_units:
  "w \<in> star {[c] | c. P c} \<longleftrightarrow> list_all P w"
proof
  assume "w \<in> star {[c] | c. P c}"
  then show "list_all P w" by (induction rule: star.induct) auto
next
  assume "list_all P w"
  then show "w \<in> star {[c] | c. P c}"
  proof (induction w)
    case Nil
    show ?case by (rule star_empty)
  next
    case (Cons d w)
    then have "[d] \<in> {[c] | c. P c}" and "w \<in> star {[c] | c. P c}" by auto
    then have "[d] @ w \<in> star {[c] | c. P c}" by (rule star_more)
    then show ?case by simp
  qed
qed

lemma lang_plain: "lang (NotOneOf [EscS, Lit AT]) = {[c] | c. plain c}"
  by (auto simp: plain_def)

lemma lang_Plus_plain:
  "w \<in> lang (Plus (NotOneOf [EscS, Lit AT])) \<longleftrightarrow> w \<noteq> [] \<and> list_all plain w"
proof -
  have "w \<in> lang (Plus (NotOneOf [EscS, Lit AT])) \<longleftrightarrow>
        (\<exists>c v. w = c # v \<and> plain c \<and> list_all plain v)"
    unfolding Plus_def lang.simps(6,7) lang_plain conc_def star_units
  proof (intro iffI; clarsimp)
    fix c v assume "plain c" "list_all plain v"
    then have "c # v = [c] @ v \<and> (\<exists>d. [c] = [d] \<and> plain d) \<and> list_all plain v" by simp
    then show "\<exists>u va. c # v = u @ va \<and> (\<exists>c. u = [c] \<and> plain c) \<and> list_all plain va"
      by blast
  qed
  also have "\<dots> \<longleftrightarrow> w \<noteq> [] \<and> list_all plain w"
    by (cases w) auto
  finally show ?thesis .
qed

lemma emailRegex_shape: "rx_test emailRegex em \<longleftrightarrow> email_shape em"
proof -
  let ?P = "lang (Plus (NotOneOf [EscS, Lit AT]))"
  have "em \<in> lang emailRegex \<longleftrightarrow>
        (\<exists>l d t. em = l @ [AT] @ d @ [DOT] @ t \<and> l \<in> ?P \<and> d \<in> ?P \<and> t \<in> ?P)"
    unfolding emailRegex_def lang.simps(3,6) conc_def by blast
  then show ?thesis
    unfolding rx_test_lang email_shape_def lang_Plus_plain by blast
qed

section \<open>Validation\<close>

lemma split_no_sep: "sep \<notin> set w \<Longrightarrow> split sep w = [w]"
  by (induction w) auto

lemma split_at_first:
  "sep \<notin> set l \<Longrightarrow> split sep (l @ sep # rest) = l # split sep rest"
  by (induction l) auto

lemma includes_unit: "includes_str w [d] \<longleftrightarrow> d \<in> set w"
  by (induction w) auto

lemma after_first_at_append:
  "AT \<notin> set l \<Longrightarrow> after_first_at (l @ AT # rest) = rest"
  unfolding after_first_at_def by (induction l) auto

lemma plain_no_at: "list_all plain w \<Longrightarrow> AT \<notin> set w"
  by (auto simp: list_all_iff plain_def)

lemma shape_split:
  assumes "email_shape em"
  shows "index (split AT em) 1 = Some (after_first_at em) \<and> DOT \<in> set (after_first_at em)"
proof -
  from assms obtain l d t where em: "em = l @ [AT] @ d @ [DOT] @ t"
    and pl: "list_all plain l" "list_all plain d" "list_all plain t"
    unfolding email_shape_def by blast
  have DA: "DOT \<noteq> AT" by (simp add: DOT_def AT_def)
  have "AT \<notin> set (d @ [DOT] @ t)" using pl DA by (auto dest: plain_no_at)
  then have "split AT (d @ [DOT] @ t) = [d @ [DOT] @ t]" by (rule split_no_sep)
  moreover have "AT \<notin> set l" using pl by (auto dest: plain_no_at)
  ultimately have "split AT em = [l, d @ [DOT] @ t]"
    using split_at_first [of AT l "d @ [DOT] @ t"] em by simp
  moreover have "after_first_at em = d @ [DOT] @ t"
    using after_first_at_append [OF \<open>AT \<notin> set l\<close>, of "d @ [DOT] @ t"] em by simp
  ultimately show ?thesis by (simp add: index_def)
qed

lemma validateEmail_shape: "validateEmail em = Inr (email_shape em)"
proof (cases "email_shape em")
  case True
  then show ?thesis
    using shape_split [OF True] by (simp add: validateEmail_def emailRegex_shape includes_unit)
next
  case False
  then show ?thesis by (simp add: validateEmail_def emailRegex_shape)
qed

section \<open>Case mapping\<close>

















lemma capitalize_Nil: "capitalize rt [] = []"
  by (simp add: capitalize_def charAt_def slice_def toUpperCase_def toLowerCase_def)









section \<open>The row handler\<close>

text \<open>The definitions that evaluating the program on a literal unfolds.\<close>

lemmas eval_defs = js_def validateEmail_def emailRegex_def Plus_def AT_def DOT_def is_space_def
  index_def capitalize_def charAt_def slice_def toUpperCase_def toLowerCase_def upper_unit_def
  lower_unit_def onData_def

lemma onData_cells:
  assumes "data ''name'' = Some n" "data ''surname'' = Some s" "data ''email'' = Some e"
  shows "onData rt data (results, con) =
           Inr (if email_shape (toLowerCase rt e)
                then (results @ [\<lparr>name = capitalize rt n, surname = capitalize rt s,
                                   email = toLowerCase rt e\<rparr>], con)
                else (results, con @ [InvalidEmailFormat (toLowerCase rt e)]))"
  using assms by (simp add: onData_def validateEmail_shape)

section \<open>Email validation\<close>

text \<open>
  C1. For every string, \<open>validateEmail\<close> returns true exactly when the string matches the
  pattern \<^verbatim>\<open>/^[^\s@]+@[^\s@]+\.[^\s@]+$/\<close> and the substring after its first \<open>@\<close>
  contains a \<open>.\<close>; matching the pattern is having the shape \<open>local-part@domain.tld\<close>
  with three non-empty parts free of white space and \<open>@\<close>. The emails \<open>not-an-email\<close> and
  \<open>a@b\<close> are rejected by the row handler with the line \<open>Invalid email format\<close>, whatever
  the other cells of the row are.
\<close>

theorem validateEmail_accepts_iff:
  "validateEmail em = Inr (rx_test emailRegex em \<and> DOT \<in> set (after_first_at em))
   \<and> rx_test emailRegex em = email_shape em
   \<and> onData rt [''name'' \<mapsto> n, ''surname'' \<mapsto> s, ''email'' \<mapsto> js ''not-an-email''] (results, con)
       = Inr (results, con @ [InvalidEmailFormat (js ''not-an-email'')])
   \<and> onData rt [''name'' \<mapsto> n, ''surname'' \<mapsto> s, ''email'' \<mapsto> js ''a@b''] (results, con)
       = Inr (results, con @ [InvalidEmailFormat (js ''a@b'')])"
proof -
  have "validateEmail em = Inr (rx_test emailRegex em \<and> DOT \<in> set (after_first_at em))"
    using shape_split [of em] by (auto simp: validateEmail_shape emailRegex_shape)
  moreover have "validateEmail (js ''not-an-email'') = Inr False"
    by (simp add: eval_defs)
  moreover have "validateEmail (js ''a@b'') = Inr False"
    by (simp add: eval_defs)
  moreover have "toLowerCase rt (js ''not-an-email'') = js ''not-an-email''"
    by (simp add: eval_defs)
  moreover have "toLowerCase rt (js ''a@b'') = js ''a@b''"
    by (simp add: eval_defs)
  ultimately show ?thesis
    by (simp add: onData_def emailRegex_shape)
qed

theorem validateEmail_accepts_iff_witness:
  "validateEmail (js ''a@b.c'') = Inr True \<and> email_shape (js ''a@b.c'')
   \<and> DOT \<in> set (after_first_at (js ''a@b.c''))"
proof -
  have "validateEmail (js ''a@b.c'') = Inr True" by (simp add: eval_defs)
  then show ?thesis using validateEmail_accepts_iff [of "js ''a@b.c''" unchanged_beyond] by simp
qed

text \<open>
  C9. \<open>validateEmail\<close> returns a boolean for every string and never raises: when the
  pattern matches, \<open>email.split('@')[1]\<close> exists, and for a string without \<open>@\<close>, where
  it would be \<open>undefined\<close>, the pattern does not match and the result is false without
  the right operand of \<open>&&\<close> being evaluated.
\<close>

theorem validateEmail_total:
  "(\<exists>b. validateEmail em = Inr b)
   \<and> (rx_test emailRegex em \<longrightarrow> (\<exists>part. index (split AT em) 1 = Some part))
   \<and> (AT \<notin> set em \<longrightarrow> index (split AT em) 1 = None \<and> validateEmail em = Inr False)"
proof (intro conjI impI)
  show "\<exists>b. validateEmail em = Inr b" by (simp add: validateEmail_shape)
next
  assume "rx_test emailRegex em"
  then show "\<exists>part. index (split AT em) 1 = Some part"
    using shape_split [of em] by (simp add: emailRegex_shape)
next
  assume no: "AT \<notin> set em"
  show "index (split AT em) 1 = None" by (simp add: split_no_sep [OF no] index_def)
next
  assume no: "AT \<notin> set em"
  have "\<not> email_shape em" using no by (auto simp: email_shape_def)
  then show "validateEmail em = Inr False" by (simp add: validateEmail_shape)
qed

theorem validateEmail_total_witness:
  "rx_test emailRegex (js ''a@b.c'') \<and> index (split AT (js ''a@b.c'')) 1 = Some (js ''b.c'')
   \<and> AT \<notin> set (js ''not-an-email'') \<and> index (split AT (js ''not-an-email'')) 1 = None
   \<and> validateEmail (js ''not-an-email'') = Inr False"
proof -
  have a: "rx_test emailRegex (js ''a@b.c'')" by (simp add: eval_defs)
  have b: "AT \<notin> set (js ''not-an-email'')" by (simp add: eval_defs)
  have c: "index (split AT (js ''a@b.c'')) 1 = Some (js ''b.c'')" by (simp add: eval_defs)
  show ?thesis
    using a b c validateEmail_total [of "js ''a@b.c''"] validateEmail_total [of "js ''not-an-email''"]
    by simp
qed

section \<open>Normalization\<close>



section \<open>The accumulated records\<close>

lemma onDataAll_complete:
  assumes "\<forall>data \<in> set rows. complete data"
  shows "\<exists>acc. onDataAll rt rows (results, con) = Inr (results @ acc, con @ rejection_lines rt rows)
           \<and> map Some acc = map (normal_form rt) (filter (passes rt) rows)"
  using assms
proof (induction rows arbitrary: results con)
  case Nil
  then show ?case by simp
next
  case (Cons data rows)
  then obtain n s e where c: "data ''name'' = Some n" "data ''surname'' = Some s"
      "data ''email'' = Some e"
    by (auto simp: complete_def)
  show ?case
  proof (cases "email_shape (toLowerCase rt e)")
    case True
    let ?u = "\<lparr>name = capitalize rt n, surname = capitalize rt s, email = toLowerCase rt e\<rparr>"
    from Cons obtain acc where
      "onDataAll rt rows (results @ [?u], con) = Inr ((results @ [?u]) @ acc, con @ rejection_lines rt rows)"
      "map Some acc = map (normal_form rt) (filter (passes rt) rows)"
      by fastforce
    then have "onDataAll rt (data # rows) (results, con)
                 = Inr (results @ (?u # acc), con @ rejection_lines rt (data # rows))
               \<and> map Some (?u # acc) = map (normal_form rt) (filter (passes rt) (data # rows))"
      using c True by (simp add: onData_cells passes_def normal_form_def validateEmail_shape)
    then show ?thesis by blast
  next
    case False
    let ?l = "InvalidEmailFormat (toLowerCase rt e)"
    from Cons obtain acc where
      "onDataAll rt rows (results, con @ [?l]) = Inr (results @ acc, (con @ [?l]) @ rejection_lines rt rows)"
      "map Some acc = map (normal_form rt) (filter (passes rt) rows)"
      by fastforce
    then have "onDataAll rt (data # rows) (results, con)
                 = Inr (results @ acc, con @ rejection_lines rt (data # rows))
               \<and> map Some acc = map (normal_form rt) (filter (passes rt) (data # rows))"
      using c False by (simp add: onData_cells passes_def validateEmail_shape)
    then show ?thesis by blast
  qed
qed

text \<open>
  C3, as stated, does not hold for every stream: a row without the \<open>email\<close> column makes
  the handler raise, and a valid row after it is never accumulated.
\<close>

theorem short_row_counterexample:
  "processCSVFile unchanged_beyond users_table_run False
      [[''name'' \<mapsto> js ''bo'', ''surname'' \<mapsto> js ''li''],
       [''name'' \<mapsto> js ''al'', ''surname'' \<mapsto> js ''b'', ''email'' \<mapsto> js ''a@b.c'']] End ([], [])
     = (Thrown TypeError, [], [], [])
   \<and> passes unchanged_beyond
        [''name'' \<mapsto> js ''al'', ''surname'' \<mapsto> js ''b'', ''email'' \<mapsto> js ''a@b.c'']
   \<and> normal_form unchanged_beyond
        [''name'' \<mapsto> js ''al'', ''surname'' \<mapsto> js ''b'', ''email'' \<mapsto> js ''a@b.c'']
       = Some \<lparr>name = js ''Al'', surname = js ''B'', email = js ''a@b.c''\<rparr>"
  by (simp add: processCSVFile_def passes_def normal_form_def eval_defs)

text \<open>
  C3, amended. For every stream of rows that have the three columns, the \<open>results\<close> array
  at the end of the stream holds exactly the normalized forms of the rows whose lower-cased
  email passes validation, in the order of those rows in the stream. A rejected row adds
  one \<open>Invalid email format\<close> line to the console and nothing to \<open>results\<close>, and the
  handler goes on to the rows after it: no rejection makes the handler raise.
\<close>

theorem accumulated_records:
  assumes "\<forall>data \<in> set rows. complete data"
  shows "map Some (results_of (processCSVFile rt run dryRun rows fin (db, con)))
           = map (normal_form rt) (filter (passes rt) rows)
         \<and> (\<exists>results. onDataAll rt rows ([], con) = Inr (results, con @ rejection_lines rt rows))
         \<and> fst (processCSVFile rt run dryRun rows fin (db, con)) \<noteq> Thrown err"
proof -
  from onDataAll_complete [OF assms, of rt "[]" con] obtain acc where
    a: "onDataAll rt rows ([], con) = Inr (acc, con @ rejection_lines rt rows)"
    and m: "map Some acc = map (normal_form rt) (filter (passes rt) rows)"
    by auto
  have "results_of (processCSVFile rt run dryRun rows fin (db, con)) = acc"
    by (simp add: processCSVFile_def a results_of_def split: stream_end.split prod.split)
  moreover have "fst (processCSVFile rt run dryRun rows fin (db, con)) \<noteq> Thrown err"
    by (simp add: processCSVFile_def a split: stream_end.split prod.split)
  ultimately show ?thesis using a m by simp
qed

theorem accumulated_records_witness:
  "complete [''name'' \<mapsto> js ''jane'', ''surname'' \<mapsto> js ''DOE'', ''email'' \<mapsto> js ''J@X.io'']
   \<and> complete [''name'' \<mapsto> js ''al'', ''surname'' \<mapsto> js ''b'', ''email'' \<mapsto> js ''a@b'']
   \<and> complete [''name'' \<mapsto> js ''bo'', ''surname'' \<mapsto> js ''li'', ''email'' \<mapsto> js ''b@y.io'']
   \<and> map Some (results_of (processCSVFile unchanged_beyond users_table_run False
         [[''name'' \<mapsto> js ''jane'', ''surname'' \<mapsto> js ''DOE'', ''email'' \<mapsto> js ''J@X.io''],
          [''name'' \<mapsto> js ''al'', ''surname'' \<mapsto> js ''b'', ''email'' \<mapsto> js ''a@b''],
          [''name'' \<mapsto> js ''bo'', ''surname'' \<mapsto> js ''li'', ''email'' \<mapsto> js ''b@y.io'']]
         End ([], [])))
     = [Some \<lparr>name = js ''Jane'', surname = js ''Doe'', email = js ''j@x.io''\<rparr>,
        Some \<lparr>name = js ''Bo'', surname = js ''Li'', email = js ''b@y.io''\<rparr>]"
proof -
  let ?r1 = "[''name'' \<mapsto> js ''jane'', ''surname'' \<mapsto> js ''DOE'', ''email'' \<mapsto> js ''J@X.io'']"
  let ?r2 = "[''name'' \<mapsto> js ''al'', ''surname'' \<mapsto> js ''b'', ''email'' \<mapsto> js ''a@b'']"
  let ?r3 = "[''name'' \<mapsto> js ''bo'', ''surname'' \<mapsto> js ''li'', ''email'' \<mapsto> js ''b@y.io'']"
  have c: "\<forall>data \<in> set [?r1, ?r2, ?r3]. complete data" by (simp add: complete_def)
  have p: "passes unchanged_beyond ?r1" "\<not> passes unchanged_beyond ?r2" "passes unchanged_beyond ?r3" by (simp_all add: passes_def eval_defs)
  have n: "normal_form unchanged_beyond ?r1 = Some \<lparr>name = js ''Jane'', surname = js ''Doe'', email = js ''j@x.io''\<rparr>"
    "normal_form unchanged_beyond ?r3 = Some \<lparr>name = js ''Bo'', surname = js ''Li'', email = js ''b@y.io''\<rparr>"
    by (simp_all add: normal_form_def eval_defs)
  have "complete ?r1 \<and> complete ?r2 \<and> complete ?r3" using c by simp
  then show ?thesis
    using accumulated_records [OF c, of unchanged_beyond users_table_run False End "[]" "[]"]
    by (simp add: p n)
qed

section \<open>The loader\<close>

lemma insertLoop_attempts:
  "insertLoop run users (db, con)
     = (after_attempts run users db, con @ failure_lines (attempts run users db))"
proof (induction users arbitrary: db con)
  case Nil
  show ?case by simp
next
  case (Cons u us)
  obtain db' r where r: "run (InsertUser (name u) (surname u) (email u)) db = (db', r)"
    by (cases "run (InsertUser (name u) (surname u) (email u)) db")
  show ?case by (cases r) (simp_all add: r Cons)
qed

lemma attempts_users: "map fst (attempts run users db) = users"
  by (induction users arbitrary: db) (simp_all split: prod.split)

text \<open>
  C4. Whatever the server answers, \<open>insertDataIntoDB\<close> sends one insert for every record
  of the batch, in the order of the batch; the database after the batch is the one these
  inserts leave, nothing else being sent; each failed insert writes one line with the
  email of its record, and the batch ends with its completion line. In particular, when
  the insert of a first record succeeds and the insert of a second one fails on the
  database the first insert left, the batch completes with the database the server left
  after the second insert and the one error line for the second record.
\<close>

theorem loader_isolates_failures:
  "insertDataIntoDB run users (db, con)
     = (after_attempts run users db, con @ failure_lines (attempts run users db) @ [DataInserted])
   \<and> map fst (attempts run users db) = users
   \<and> (run (InsertUser (name u1) (surname u1) (email u1)) db = (db1, None)
        \<and> run (InsertUser (name u2) (surname u2) (email u2)) db1 = (db2, Some m)
      \<longrightarrow> insertDataIntoDB run [u1, u2] (db, con)
            = (db2, con @ [ErrorInserting (email u2) m, DataInserted]))"
  by (simp add: insertDataIntoDB_def insertLoop_attempts attempts_users)

theorem loader_isolates_failures_witness:
  "users_table_run (InsertUser (js ''Jane'') (js ''Doe'') (js ''j@x.io'')) []
     = ([\<lparr>name = js ''Jane'', surname = js ''Doe'', email = js ''j@x.io''\<rparr>], None)
   \<and> users_table_run (InsertUser (js ''Janet'') (js ''Roe'') (js ''j@x.io''))
        [\<lparr>name = js ''Jane'', surname = js ''Doe'', email = js ''j@x.io''\<rparr>]
     = ([\<lparr>name = js ''Jane'', surname = js ''Doe'', email = js ''j@x.io''\<rparr>],
        Some (js ''Duplicate entry''))
   \<and> insertDataIntoDB users_table_run
        [\<lparr>name = js ''Jane'', surname = js ''Doe'', email = js ''j@x.io''\<rparr>,
         \<lparr>name = js ''Janet'', surname = js ''Roe'', email = js ''j@x.io''\<rparr>] ([], [])
     = ([\<lparr>name = js ''Jane'', surname = js ''Doe'', email = js ''j@x.io''\<rparr>],
        [ErrorInserting (js ''j@x.io'') (js ''Duplicate entry''), DataInserted])"
proof -
  let ?u1 = "\<lparr>name = js ''Jane'', surname = js ''Doe'', email = js ''j@x.io''\<rparr>"
  let ?u2 = "\<lparr>name = js ''Janet'', surname = js ''Roe'', email = js ''j@x.io''\<rparr>"
  have a: "users_table_run (InsertUser (name ?u1) (surname ?u1) (email ?u1)) [] = ([?u1], None)"
    by simp
  have b: "users_table_run (InsertUser (name ?u2) (surname ?u2) (email ?u2)) [?u1]
             = ([?u1], Some (js ''Duplicate entry''))"
    by simp
  show ?thesis
    using a b loader_isolates_failures [of users_table_run "[]" "[]" "[]" ?u1 "[?u1]" ?u2 "[?u1]"
        "js ''Duplicate entry''"]
    by simp
qed

section \<open>Dry run\<close>

text \<open>
  C5. For every stream, \<open>processCSVFile\<close> with the dry-run flag set accumulates the same
  \<open>results\<close> as with the flag unset, leaves the database as it was, and does not depend
  on how the server would answer any statement: it sends none.
\<close>

theorem dry_run_touches_nothing:
  "results_of (processCSVFile rt run True rows fin (db, con))
     = results_of (processCSVFile rt run False rows fin (db, con))
   \<and> db_of (processCSVFile rt run True rows fin (db, con)) = db
   \<and> processCSVFile rt run True rows fin (db, con) = processCSVFile rt run' True rows fin (db, con)"
  by (simp add: processCSVFile_def results_of_def db_of_def
      split: sum.split stream_end.split prod.split)

theorem dry_run_touches_nothing_witness:
  "results_of (processCSVFile unchanged_beyond users_table_run True
      [[''name'' \<mapsto> js ''bo'', ''surname'' \<mapsto> js ''li'', ''email'' \<mapsto> js ''b@y.io'']] End ([], []))
     = [\<lparr>name = js ''Bo'', surname = js ''Li'', email = js ''b@y.io''\<rparr>]
   \<and> db_of (processCSVFile unchanged_beyond users_table_run True
      [[''name'' \<mapsto> js ''bo'', ''surname'' \<mapsto> js ''li'', ''email'' \<mapsto> js ''b@y.io'']] End ([], []))
     = []
   \<and> db_of (processCSVFile unchanged_beyond users_table_run False
      [[''name'' \<mapsto> js ''bo'', ''surname'' \<mapsto> js ''li'', ''email'' \<mapsto> js ''b@y.io'']] End ([], []))
     = [\<lparr>name = js ''Bo'', surname = js ''Li'', email = js ''b@y.io''\<rparr>]"
proof -
  let ?r = "[''name'' \<mapsto> js ''bo'', ''surname'' \<mapsto> js ''li'', ''email'' \<mapsto> js ''b@y.io'']"
  let ?u = "\<lparr>name = js ''Bo'', surname = js ''Li'', email = js ''b@y.io''\<rparr>"
  have d: "onData unchanged_beyond ?r ([], []) = Inr ([?u], [])" by (simp add: eval_defs)
  have "processCSVFile unchanged_beyond users_table_run False [?r] End ([], []) = (Resolved, [?u], [?u], [DataInserted])"
    by (simp add: processCSVFile_def d insertDataIntoDB_def)
  then show ?thesis
    using dry_run_touches_nothing [of unchanged_beyond users_table_run "[?r]" End "[]" "[]" users_table_run]
    by (simp add: results_of_def db_of_def)
qed

section \<open>Empty names\<close>

text \<open>
  C6, as stated, does not hold: a row whose \<open>name\<close> is the empty string and whose email
  is valid is accepted, with the empty name in its record.
\<close>

theorem empty_name_counterexample:
  "onData unchanged_beyond [''name'' \<mapsto> [], ''surname'' \<mapsto> js ''Doe'', ''email'' \<mapsto> js ''a@b.c''] ([], [])
     = Inr ([\<lparr>name = [], surname = js ''Doe'', email = js ''a@b.c''\<rparr>], [])"
  by (simp add: eval_defs)

text \<open>
  C6, amended. For a row with the three columns in which \<open>name\<close> or \<open>surname\<close> is the
  empty string, the handler does not raise: \<open>capitalize\<close> of the empty string is the
  empty string, and the row is treated like any other, accepted when its lower-cased
  email validates and rejected with the \<open>Invalid email format\<close> line when it does not.
\<close>

theorem empty_field_is_normalized:
  assumes "data ''name'' = Some n" "data ''surname'' = Some s" "data ''email'' = Some e"
    and "n = [] \<or> s = []"
  shows "capitalize rt [] = []
         \<and> onData rt data (results, con) =
             Inr (if validateEmail (toLowerCase rt e) = Inr True
                  then (results @ [\<lparr>name = capitalize rt n, surname = capitalize rt s,
                                     email = toLowerCase rt e\<rparr>], con)
                  else (results, con @ [InvalidEmailFormat (toLowerCase rt e)]))"
  using assms(1-3) by (simp add: onData_cells validateEmail_shape capitalize_Nil)

theorem empty_field_is_normalized_witness:
  "onData unchanged_beyond [''name'' \<mapsto> js ''Al'', ''surname'' \<mapsto> [], ''email'' \<mapsto> js ''a@b''] ([], [])
     = Inr ([], [InvalidEmailFormat (js ''a@b'')])
   \<and> capitalize unchanged_beyond [] = []"
proof -
  let ?d = "[''name'' \<mapsto> js ''Al'', ''surname'' \<mapsto> [], ''email'' \<mapsto> js ''a@b'']"
  have c: "?d ''name'' = Some (js ''Al'')" "?d ''surname'' = Some []" "?d ''email'' = Some (js ''a@b'')"
    by simp_all
  have o: "js ''Al'' = [] \<or> ([]::jsstring) = []" by simp
  have l: "toLowerCase unchanged_beyond (js ''a@b'') = js ''a@b''" by (simp add: eval_defs)
  have v: "validateEmail (js ''a@b'') = Inr False" by (simp add: eval_defs)
  show ?thesis
    using c o empty_field_is_normalized [of ?d "js ''Al''" "[]" "js ''a@b''" unchanged_beyond "[]" "[]"]
    by (simp add: l v)
qed

section \<open>Idempotence of capitalization\<close>




section \<open>Connection failure\<close>

text \<open>
  C8. When \<open>mysql.createConnection\<close> fails, \<open>main\<close> ends with \<open>process.exit(1)\<close>: the only
  console line is the connection error, the database is as it was, and the command line,
  the CSV stream and the server's answers to statements play no part.
\<close>

theorem connection_failure_is_fatal:
  "main rt (Some m) run args rows fin db = (Exit 1, db, [ErrorConnecting m], False)"
  by (simp add: main_def)

theorem connection_failure_is_fatal_witness:
  "main unchanged_beyond (Some (js ''Access denied'')) users_table_run
      \<lparr>create_table = False, file_arg = Some (js ''users.csv''), dry_run = False\<rparr>
      [[''name'' \<mapsto> js ''bo'', ''surname'' \<mapsto> js ''li'', ''email'' \<mapsto> js ''b@y.io'']] End []
     = (Exit 1, [], [ErrorConnecting (js ''Access denied'')], False)
   \<and> main unchanged_beyond None users_table_run
      \<lparr>create_table = False, file_arg = Some (js ''users.csv''), dry_run = False\<rparr>
      [[''name'' \<mapsto> js ''bo'', ''surname'' \<mapsto> js ''li'', ''email'' \<mapsto> js ''b@y.io'']] End []
     = (Finished, [\<lparr>name = js ''Bo'', surname = js ''Li'', email = js ''b@y.io''\<rparr>],
        [DataInserted], True)"
proof -
  let ?r = "[''name'' \<mapsto> js ''bo'', ''surname'' \<mapsto> js ''li'', ''email'' \<mapsto> js ''b@y.io'']"
  let ?u = "\<lparr>name = js ''Bo'', surname = js ''Li'', email = js ''b@y.io''\<rparr>"
  have d: "onData unchanged_beyond ?r ([], []) = Inr ([?u], [])" by (simp add: eval_defs)
  have p: "processCSVFile unchanged_beyond users_table_run False [?r] End ([], []) = (Resolved, [?u], [?u], [DataInserted])"
    by (simp add: processCSVFile_def d insertDataIntoDB_def)
  have t: "truthy (Some (js ''users.csv''))" by (simp add: truthy_def js_def)
  show ?thesis
    using connection_failure_is_fatal [of unchanged_beyond "js ''Access denied''" users_table_run
        "\<lparr>create_table = False, file_arg = Some (js ''users.csv''), dry_run = False\<rparr>" "[?r]" End "[]"]
    by (simp add: main_def p t)
qed

section \<open>Rows without an email column\<close>

text \<open>
  C10. For a row without the \<open>email\<close> column the handler raises a TypeError instead of
  rejecting the row: no line is written, the rows after it are not handled, and the error
  ends \<open>processCSVFile\<close>. For a row with the three columns the handler returns.
\<close>

theorem missing_email_raises:
  "(data ''email'' = None \<longrightarrow>
      onData rt data st = Inl TypeError
      \<and> onDataAll rt (data # rest) st = Inl (TypeError, st)
      \<and> processCSVFile rt run dryRun (data # rest) fin (db, con) = (Thrown TypeError, [], db, con))
   \<and> (complete data \<longrightarrow> (\<exists>st'. onData rt data st = Inr st'))"
proof (intro conjI impI)
  assume e: "data ''email'' = None"
  show o: "onData rt data st = Inl TypeError" for st
    using e by (simp add: onData_def split: prod.split option.split)
  show "onDataAll rt (data # rest) st = Inl (TypeError, st)" by (simp add: o)
  show "processCSVFile rt run dryRun (data # rest) fin (db, con) = (Thrown TypeError, [], db, con)"
    by (simp add: processCSVFile_def o)
next
  assume "complete data"
  then obtain n s e where c: "data ''name'' = Some n" "data ''surname'' = Some s"
      "data ''email'' = Some e"
    by (auto simp: complete_def)
  obtain results con where st: "st = (results, con)" by (cases st)
  show "\<exists>st'. onData rt data st = Inr st'"
    unfolding st onData_cells [OF c] by blast
qed

theorem missing_email_raises_witness:
  "[''name'' \<mapsto> js ''bo'', ''surname'' \<mapsto> js ''li''] ''email'' = None
   \<and> processCSVFile unchanged_beyond users_table_run False
        [[''name'' \<mapsto> js ''bo'', ''surname'' \<mapsto> js ''li''],
         [''name'' \<mapsto> js ''al'', ''surname'' \<mapsto> js ''b'', ''email'' \<mapsto> js ''a@b.c'']] End ([], [])
     = (Thrown TypeError, [], [], [])
   \<and> complete [''name'' \<mapsto> js ''al'', ''surname'' \<mapsto> js ''b'', ''email'' \<mapsto> js ''a@b.c'']
   \<and> onData unchanged_beyond [''name'' \<mapsto> js ''al'', ''surname'' \<mapsto> js ''b'', ''email'' \<mapsto> js ''a@b.c''] ([], [])
     = Inr ([\<lparr>name = js ''Al'', surname = js ''B'', email = js ''a@b.c''\<rparr>], [])"
proof -
  let ?d = "[''name'' \<mapsto> js ''bo'', ''surname'' \<mapsto> js ''li'']"
  let ?r = "[''name'' \<mapsto> js ''al'', ''surname'' \<mapsto> js ''b'', ''email'' \<mapsto> js ''a@b.c'']"
  have e: "?d ''email'' = None" by simp
  have c: "complete ?r" by (simp add: complete_def)
  have o: "onData unchanged_beyond ?r ([], []) = Inr ([\<lparr>name = js ''Al'', surname = js ''B'', email = js ''a@b.c''\<rparr>], [])"
    by (simp add: eval_defs)
  show ?thesis
    using e c o missing_email_raises [of ?d unchanged_beyond _ "[?r]" users_table_run False End "[]" "[]"]
    by simp
qed

end
